theory Spec2Isabelle
  imports Main "HOL-Library.Word"
begin

section \<open>The per-thread state of AddressSanitizer (asan\_thread.h)\<close>

text \<open>
  The header \<^verbatim>\<open>libsanitizer/asan/asan_thread.h\<close> declares \<^verbatim>\<open>AsanThread\<close>, the
  per-thread object that records the stack bounds of a thread in three
  \<^verbatim>\<open>StackDescriptor\<close> slots reached through three role pointers, the thread's
  fake stack, and two reentrancy flags, together with the two scoped guards
  \<^verbatim>\<open>ScopedUnwinding\<close> and \<^verbatim>\<open>ScopedDeadlySignal\<close>.

  Conventions of the embedding.
  \<^item> \<^verbatim>\<open>uptr\<close> is the pointer-sized unsigned integer; it is modelled as a 64-bit
    word, so that \<open>+\<close> and \<open>-\<close> wrap as they do in C++.
  \<^item> A private member \<^verbatim>\<open>x_\<close> of the class is the record field \<open>x_m\<close>: a name
    that ends with an underscore is not a name a definition can refer to.
  \<^item> A method that dereferences a pointer returns \<open>fault + 'a\<close>; \<open>Inl\<close> is the
    undefined behaviour of dereferencing a pointer that designates no object.
  \<^item> \<^verbatim>\<open>CurrentStack\<close> reads the address of one of its own local variables. That
    address is the parameter \<open>sp\<close> of every method that goes through
    \<^verbatim>\<open>CurrentStack\<close>.
  \<^item> The members \<^verbatim>\<open>context_\<close>, \<^verbatim>\<open>start_routine_\<close>, \<^verbatim>\<open>arg_\<close>, \<^verbatim>\<open>malloc_storage_\<close>
    and \<^verbatim>\<open>stats_\<close> are not read or written by any method modelled here and are
    left out of the record.
\<close>

type_synonym uptr = "64 word"

datatype fault = NullDeref | InvalidPointer

subsection \<open>Stack descriptors and the thread object\<close>

record StackDescriptor =
  stack_top :: uptr
  stack_bottom :: uptr
  stack_size :: uptr

text \<open>
  A \<^verbatim>\<open>StackDescriptor*\<close> held by the thread is either null or the address of an
  element of the thread's own array \<^verbatim>\<open>stacks_\<close>.
\<close>

datatype sd_ptr = Nullptr | StacksElem nat

record AsanThread =
  stacks_m :: "StackDescriptor list"
  temp_stack_m :: sd_ptr
  next_stack_m :: sd_ptr
  previous_stack_m :: sd_ptr
  tls_begin_m :: uptr
  tls_end_m :: uptr
  fake_stack_m :: uptr
  unwinding_m :: bool
  in_deadly_signal_m :: bool

text \<open>
  The object is obtained from \<^verbatim>\<open>mmap\<close> and has no constructor: its first state is
  the one in which every byte is zero.
\<close>

definition zero_StackDescriptor :: StackDescriptor where
  "zero_StackDescriptor = \<lparr>stack_top = 0, stack_bottom = 0, stack_size = 0\<rparr>"

definition zero_AsanThread :: AsanThread where
  "zero_AsanThread =
     \<lparr>stacks_m = [zero_StackDescriptor, zero_StackDescriptor, zero_StackDescriptor],
      temp_stack_m = Nullptr, next_stack_m = Nullptr, previous_stack_m = Nullptr,
      tls_begin_m = 0, tls_end_m = 0, fake_stack_m = 0,
      unwinding_m = False, in_deadly_signal_m = False\<rparr>"

text \<open>Reading and writing a descriptor through a pointer.\<close>

fun load_sd :: "AsanThread \<Rightarrow> sd_ptr \<Rightarrow> fault + StackDescriptor" where
  "load_sd t Nullptr = Inl NullDeref"
| "load_sd t (StacksElem i) =
     (if i < length (stacks_m t) then Inr (stacks_m t ! i) else Inl InvalidPointer)"

fun store_sd ::
  "AsanThread \<Rightarrow> sd_ptr \<Rightarrow> (StackDescriptor \<Rightarrow> StackDescriptor) \<Rightarrow> fault + AsanThread" where
  "store_sd t Nullptr f = Inl NullDeref"
| "store_sd t (StacksElem i) f =
     (if i < length (stacks_m t)
      then Inr (t\<lparr>stacks_m := (stacks_m t)[i := f (stacks_m t ! i)]\<rparr>)
      else Inl InvalidPointer)"

subsection \<open>Membership and the current descriptor\<close>

text \<open>\<^verbatim>\<open>addr >= stack->stack_bottom && addr < stack->stack_top\<close>\<close>

definition in_range :: "StackDescriptor \<Rightarrow> uptr \<Rightarrow> bool" where
  "in_range d addr = (stack_bottom d \<le> addr \<and> addr < stack_top d)"

definition AddrIsInStack_sd :: "AsanThread \<Rightarrow> sd_ptr \<Rightarrow> uptr \<Rightarrow> fault + bool" where
  "AddrIsInStack_sd t stack addr =
     (case load_sd t stack of Inl e \<Rightarrow> Inl e | Inr d \<Rightarrow> Inr (in_range d addr))"

definition CurrentStack :: "AsanThread \<Rightarrow> uptr \<Rightarrow> fault + sd_ptr" where
  "CurrentStack t sp =
     (case AddrIsInStack_sd t (previous_stack_m t) sp of
        Inl e \<Rightarrow> Inl e
      | Inr b \<Rightarrow> Inr (if b then previous_stack_m t else next_stack_m t))"

definition AddrIsInStack :: "AsanThread \<Rightarrow> uptr \<Rightarrow> uptr \<Rightarrow> fault + bool" where
  "AddrIsInStack t sp addr =
     (case CurrentStack t sp of Inl e \<Rightarrow> Inl e | Inr p \<Rightarrow> AddrIsInStack_sd t p addr)"

text \<open>
  The three accessors \<^verbatim>\<open>stack_top()\<close>, \<^verbatim>\<open>stack_bottom()\<close> and \<^verbatim>\<open>stack_size()\<close> of
  the class; the record fields of the descriptor already carry these names.
\<close>

definition AsanThread_stack_top :: "AsanThread \<Rightarrow> uptr \<Rightarrow> fault + uptr" where
  "AsanThread_stack_top t sp =
     (case CurrentStack t sp of
        Inl e \<Rightarrow> Inl e
      | Inr p \<Rightarrow> (case load_sd t p of Inl e \<Rightarrow> Inl e | Inr d \<Rightarrow> Inr (stack_top d)))"

definition AsanThread_stack_bottom :: "AsanThread \<Rightarrow> uptr \<Rightarrow> fault + uptr" where
  "AsanThread_stack_bottom t sp =
     (case CurrentStack t sp of
        Inl e \<Rightarrow> Inl e
      | Inr p \<Rightarrow> (case load_sd t p of Inl e \<Rightarrow> Inl e | Inr d \<Rightarrow> Inr (stack_bottom d)))"

definition AsanThread_stack_size :: "AsanThread \<Rightarrow> uptr \<Rightarrow> fault + uptr" where
  "AsanThread_stack_size t sp =
     (case CurrentStack t sp of
        Inl e \<Rightarrow> Inl e
      | Inr p \<Rightarrow> (case load_sd t p of Inl e \<Rightarrow> Inl e | Inr d \<Rightarrow> Inr (stack_size d)))"

text \<open>The descriptor \<^verbatim>\<open>*CurrentStack()\<close>, which the three accessors read.\<close>

definition CurrentStack_sd :: "AsanThread \<Rightarrow> uptr \<Rightarrow> fault + StackDescriptor" where
  "CurrentStack_sd t sp =
     (case CurrentStack t sp of Inl e \<Rightarrow> Inl e | Inr p \<Rightarrow> load_sd t p)"

subsection \<open>Rotation of the descriptors\<close>

definition SetUserStack :: "uptr \<Rightarrow> uptr \<Rightarrow> AsanThread \<Rightarrow> fault + AsanThread" where
  "SetUserStack base sz t =
     (case store_sd t (temp_stack_m t) (\<lambda>d. d\<lparr>stack_bottom := base\<rparr>) of
        Inl e \<Rightarrow> Inl e
      | Inr t1 \<Rightarrow>
     (case store_sd t1 (temp_stack_m t1) (\<lambda>d. d\<lparr>stack_top := base + sz\<rparr>) of
        Inl e \<Rightarrow> Inl e
      | Inr t2 \<Rightarrow>
     (case store_sd t2 (temp_stack_m t2) (\<lambda>d. d\<lparr>stack_size := sz\<rparr>) of
        Inl e \<Rightarrow> Inl e
      | Inr t3 \<Rightarrow>
          (let oprev = previous_stack_m t3;
               t4 = t3\<lparr>previous_stack_m := next_stack_m t3\<rparr>;
               t5 = t4\<lparr>next_stack_m := temp_stack_m t4\<rparr>;
               t6 = t5\<lparr>temp_stack_m := oprev\<rparr>
           in Inr t6))))"

definition RestorePreviousUserStack :: "AsanThread \<Rightarrow> fault + AsanThread" where
  "RestorePreviousUserStack t =
     (case load_sd t (previous_stack_m t) of
        Inl e \<Rightarrow> Inl e
      | Inr d \<Rightarrow> SetUserStack (stack_bottom d) (stack_size d) t)"

text \<open>
  The same body, keeping the state after each of its six writes to the thread object
  (three words of the temp descriptor, then three pointers), in program order, that
  is, in the order of the source text. Each write of one word is one step.
\<close>

definition SetUserStack_trace :: "uptr \<Rightarrow> uptr \<Rightarrow> AsanThread \<Rightarrow> fault + AsanThread list" where
  "SetUserStack_trace base sz t =
     (case store_sd t (temp_stack_m t) (\<lambda>d. d\<lparr>stack_bottom := base\<rparr>) of
        Inl e \<Rightarrow> Inl e
      | Inr t1 \<Rightarrow>
     (case store_sd t1 (temp_stack_m t1) (\<lambda>d. d\<lparr>stack_top := base + sz\<rparr>) of
        Inl e \<Rightarrow> Inl e
      | Inr t2 \<Rightarrow>
     (case store_sd t2 (temp_stack_m t2) (\<lambda>d. d\<lparr>stack_size := sz\<rparr>) of
        Inl e \<Rightarrow> Inl e
      | Inr t3 \<Rightarrow>
          (let oprev = previous_stack_m t3;
               t4 = t3\<lparr>previous_stack_m := next_stack_m t3\<rparr>;
               t5 = t4\<lparr>next_stack_m := temp_stack_m t4\<rparr>;
               t6 = t5\<lparr>temp_stack_m := oprev\<rparr>
           in Inr [t1, t2, t3, t4, t5, t6]))))"

text \<open>
  The six writes of \<^verbatim>\<open>SetUserStack\<close> one by one. They are plain stores to plain
  members: the header declares neither \<^verbatim>\<open>volatile\<close> nor an atomic type for them and
  puts no fence between them, so the order in which they reach memory is the
  compiler's choice among the orders that end in the same state. The value of each
  store is fixed by the state \<open>t0\<close> in which the method is called: line 80 to 82
  write \<open>base\<close>, \<open>base + sz\<close> and \<open>sz\<close> through the temp pointer of \<open>t0\<close>, line 85
  writes the next pointer of \<open>t0\<close> to \<^verbatim>\<open>previous_stack_\<close>, line 86 the temp pointer of
  \<open>t0\<close> to \<^verbatim>\<open>next_stack_\<close>, line 87 the previous pointer of \<open>t0\<close> (the local
  \<^verbatim>\<open>oprev\<close>) to \<^verbatim>\<open>temp_stack_\<close>.
\<close>

datatype store =
  StoreBottom | StoreTop | StoreSize | StorePrevious | StoreNext | StoreTemp

fun do_store ::
  "uptr \<Rightarrow> uptr \<Rightarrow> AsanThread \<Rightarrow> store \<Rightarrow> AsanThread \<Rightarrow> fault + AsanThread" where
  "do_store base sz t0 StoreBottom s =
     store_sd s (temp_stack_m t0) (\<lambda>d. d\<lparr>stack_bottom := base\<rparr>)"
| "do_store base sz t0 StoreTop s =
     store_sd s (temp_stack_m t0) (\<lambda>d. d\<lparr>stack_top := base + sz\<rparr>)"
| "do_store base sz t0 StoreSize s =
     store_sd s (temp_stack_m t0) (\<lambda>d. d\<lparr>stack_size := sz\<rparr>)"
| "do_store base sz t0 StorePrevious s = Inr (s\<lparr>previous_stack_m := next_stack_m t0\<rparr>)"
| "do_store base sz t0 StoreNext s = Inr (s\<lparr>next_stack_m := temp_stack_m t0\<rparr>)"
| "do_store base sz t0 StoreTemp s = Inr (s\<lparr>temp_stack_m := previous_stack_m t0\<rparr>)"

text \<open>The states after each store of a list of stores, starting in \<open>s\<close>.\<close>

fun do_stores ::
  "uptr \<Rightarrow> uptr \<Rightarrow> AsanThread \<Rightarrow> store list \<Rightarrow> AsanThread \<Rightarrow> fault + AsanThread list" where
  "do_stores base sz t0 [] s = Inr []"
| "do_stores base sz t0 (st # sts) s =
     (case do_store base sz t0 st s of
        Inl e \<Rightarrow> Inl e
      | Inr s' \<Rightarrow>
          (case do_stores base sz t0 sts s' of Inl e \<Rightarrow> Inl e | Inr ss \<Rightarrow> Inr (s' # ss)))"

text \<open>The order of the source text.\<close>

definition program_order :: "store list" where
  "program_order = [StoreBottom, StoreTop, StoreSize, StorePrevious, StoreNext, StoreTemp]"

text \<open>
  An order with the same final state, in which the stores to the adjacent members
  \<^verbatim>\<open>temp_stack_\<close> and \<^verbatim>\<open>next_stack_\<close> come before the store to \<^verbatim>\<open>previous_stack_\<close>.
\<close>

definition next_first_order :: "store list" where
  "next_first_order = [StoreBottom, StoreTop, StoreSize, StoreNext, StoreTemp, StorePrevious]"

text \<open>Sequences of calls to the two rotating methods.\<close>

datatype stack_op = CallSetUserStack uptr uptr | CallRestorePreviousUserStack

fun run_op :: "stack_op \<Rightarrow> AsanThread \<Rightarrow> fault + AsanThread" where
  "run_op (CallSetUserStack base sz) t = SetUserStack base sz t"
| "run_op CallRestorePreviousUserStack t = RestorePreviousUserStack t"

fun run_ops :: "stack_op list \<Rightarrow> AsanThread \<Rightarrow> fault + AsanThread" where
  "run_ops [] t = Inr t"
| "run_ops (c # cs) t = (case run_op c t of Inl e \<Rightarrow> Inl e | Inr t' \<Rightarrow> run_ops cs t')"

subsection \<open>Well-formed role pointers\<close>

text \<open>
  The three role pointers designate three different elements of the array of three
  descriptors.
\<close>

fun valid_ptr :: "AsanThread \<Rightarrow> sd_ptr \<Rightarrow> bool" where
  "valid_ptr t Nullptr = False"
| "valid_ptr t (StacksElem i) = (i < length (stacks_m t))"

definition roles_ok :: "AsanThread \<Rightarrow> bool" where
  "roles_ok t =
     (length (stacks_m t) = 3 \<and>
      valid_ptr t (previous_stack_m t) \<and> valid_ptr t (next_stack_m t) \<and>
      valid_ptr t (temp_stack_m t) \<and>
      previous_stack_m t \<noteq> next_stack_m t \<and> next_stack_m t \<noteq> temp_stack_m t \<and>
      previous_stack_m t \<noteq> temp_stack_m t)"

text \<open>\<^verbatim>\<open>stack_size == stack_top - stack_bottom\<close>, the comment on the descriptor.\<close>

definition sd_consistent :: "StackDescriptor \<Rightarrow> bool" where
  "sd_consistent d = (stack_size d = stack_top d - stack_bottom d)"

fun ptr_consistent :: "AsanThread \<Rightarrow> sd_ptr \<Rightarrow> bool" where
  "ptr_consistent t Nullptr = False"
| "ptr_consistent t (StacksElem i) =
     (i < length (stacks_m t) \<and> sd_consistent (stacks_m t ! i))"

definition committed_consistent :: "AsanThread \<Rightarrow> bool" where
  "committed_consistent t =
     (ptr_consistent t (previous_stack_m t) \<and> ptr_consistent t (next_stack_m t))"

subsection \<open>The fake stack\<close>

text \<open>
  \<^verbatim>\<open>fake_stack_\<close> is a \<^verbatim>\<open>FakeStack*\<close>, kept as the word \<^verbatim>\<open>has_fake_stack\<close> casts it
  to: 0 is the null pointer, and \<^verbatim>\<open>has_fake_stack\<close> holds from 2 on, so that 1 is a
  reserved value that designates no object. The thread lives in a world that also
  holds the thread-local slot written by \<^verbatim>\<open>SetTLSFakeStack\<close> and the calls made to
  \<^verbatim>\<open>FakeStack::Destroy\<close>. A call is kept with its receiver, its argument, and what
  the callee finds when it is entered: the value of the thread's \<^verbatim>\<open>fake_stack_\<close> and
  the value of the thread-local slot at that moment.
\<close>

type_synonym c_int = "32 word"

record Destroy_call =
  receiver :: uptr
  tid_arg :: c_int
  seen_fake_stack :: uptr
  seen_tls_fake_stack :: uptr

record AsanWorld =
  thr :: AsanThread
  tls_fake_stack :: uptr
  Destroy_calls :: "Destroy_call list"

definition has_fake_stack :: "AsanThread \<Rightarrow> bool" where
  "has_fake_stack t = (1 < fake_stack_m t)"

text \<open>
  Modelled from the spec: \<^verbatim>\<open>SetTLSFakeStack\<close> is declared in asan\_fake\_stack.h,
  which is not among the sources; it is the write of the "fast thread-local slot" that
  the hot instrumentation path reads.
\<close>

definition SetTLSFakeStack :: "uptr \<Rightarrow> AsanWorld \<Rightarrow> AsanWorld" where
  "SetTLSFakeStack fs w = w\<lparr>tls_fake_stack := fs\<rparr>"

text \<open>
  Modelled from the spec: \<^verbatim>\<open>FakeStack::Destroy(int tid)\<close> is the "fake stack's own
  by-tid teardown", owned by the FakeStack collaborator and not among the sources.
  The call is recorded with its receiver, its argument and the state it is entered in.
  A call through a pointer that designates no object (null, or the reserved value 1)
  is a fault.
\<close>

definition FakeStack_Destroy :: "uptr \<Rightarrow> c_int \<Rightarrow> AsanWorld \<Rightarrow> fault + AsanWorld" where
  "FakeStack_Destroy this tid w =
     (if this = 0 then Inl NullDeref
      else if this = 1 then Inl InvalidPointer
      else Inr (w\<lparr>Destroy_calls := Destroy_calls w @
             [\<lparr>receiver = this, tid_arg = tid, seen_fake_stack = fake_stack_m (thr w),
               seen_tls_fake_stack = tls_fake_stack w\<rparr>]\<rparr>))"

definition DeleteFakeStack :: "c_int \<Rightarrow> AsanWorld \<Rightarrow> fault + AsanWorld" where
  "DeleteFakeStack tid w =
     (if fake_stack_m (thr w) = 0 then Inr w
      else
        (let t = fake_stack_m (thr w);
             w1 = w\<lparr>thr := (thr w)\<lparr>fake_stack_m := 0\<rparr>\<rparr>;
             w2 = SetTLSFakeStack 0 w1
         in FakeStack_Destroy t tid w2))"

text \<open>
  \<^verbatim>\<open>fake_stack()\<close>. The global \<^verbatim>\<open>__asan_option_detect_stack_use_after_return\<close> and
  the private method \<^verbatim>\<open>AsyncSignalSafeLazyInitFakeStack\<close>, which is only declared in
  the header, are parameters: the flag is a C \<^verbatim>\<open>int\<close> tested with \<^verbatim>\<open>!\<close>, the method is
  any function that returns a pointer and a new world.
\<close>

definition fake_stack ::
  "(AsanWorld \<Rightarrow> uptr \<times> AsanWorld) \<Rightarrow> c_int \<Rightarrow> AsanWorld \<Rightarrow> uptr \<times> AsanWorld" where
  "fake_stack AsyncSignalSafeLazyInitFakeStack asan_option_detect_stack_use_after_return w =
     (if asan_option_detect_stack_use_after_return = 0 then (0, w)
      else if \<not> has_fake_stack (thr w) then AsyncSignalSafeLazyInitFakeStack w
      else (fake_stack_m (thr w), w))"

text \<open>\<open>n\<close> calls of \<^verbatim>\<open>fake_stack()\<close> in a row: the results in order, and the last world.\<close>

fun fake_stack_calls ::
  "(AsanWorld \<Rightarrow> uptr \<times> AsanWorld) \<Rightarrow> c_int \<Rightarrow> nat \<Rightarrow> AsanWorld \<Rightarrow> uptr list \<times> AsanWorld" where
  "fake_stack_calls lazy_init opt 0 w = ([], w)"
| "fake_stack_calls lazy_init opt (Suc n) w =
     (case fake_stack lazy_init opt w of
        (r, w') \<Rightarrow> (case fake_stack_calls lazy_init opt n w' of (rs, w'') \<Rightarrow> (r # rs, w'')))"

subsection \<open>The reentrancy flags and their scoped guards\<close>

definition isUnwinding :: "AsanThread \<Rightarrow> bool" where
  "isUnwinding t = unwinding_m t"

definition setUnwinding :: "bool \<Rightarrow> AsanThread \<Rightarrow> AsanThread" where
  "setUnwinding b t = t\<lparr>unwinding_m := b\<rparr>"

definition isInDeadlySignal :: "AsanThread \<Rightarrow> bool" where
  "isInDeadlySignal t = in_deadly_signal_m t"

definition setInDeadlySignal :: "bool \<Rightarrow> AsanThread \<Rightarrow> AsanThread" where
  "setInDeadlySignal b t = t\<lparr>in_deadly_signal_m := b\<rparr>"

text \<open>
  The guards hold an \<^verbatim>\<open>AsanThread*\<close>: null, or the address of a thread object. The
  heap maps the addresses of the live thread objects to their states. A member call
  \<^verbatim>\<open>p->f(b)\<close> faults when \<open>p\<close> designates no object.
\<close>

datatype thread_ptr = NullThread | ThreadAt nat

type_synonym thread_heap = "nat \<Rightarrow> AsanThread option"

fun call_on_thread ::
  "thread_heap \<Rightarrow> thread_ptr \<Rightarrow> (AsanThread \<Rightarrow> AsanThread) \<Rightarrow> fault + thread_heap" where
  "call_on_thread h NullThread f = Inl NullDeref"
| "call_on_thread h (ThreadAt a) f =
     (case h a of None \<Rightarrow> Inl InvalidPointer | Some t \<Rightarrow> Inr (h(a := Some (f t))))"

record ScopedUnwinding =
  su_thread :: thread_ptr

record ScopedDeadlySignal =
  sds_thread :: thread_ptr

definition ScopedUnwinding_ctor ::
  "thread_ptr \<Rightarrow> thread_heap \<Rightarrow> fault + (ScopedUnwinding \<times> thread_heap)" where
  "ScopedUnwinding_ctor t h =
     (let this = \<lparr>su_thread = t\<rparr>
      in case call_on_thread h t (setUnwinding True) of
           Inl e \<Rightarrow> Inl e
         | Inr h' \<Rightarrow> Inr (this, h'))"

definition ScopedUnwinding_dtor :: "ScopedUnwinding \<Rightarrow> thread_heap \<Rightarrow> fault + thread_heap" where
  "ScopedUnwinding_dtor this h = call_on_thread h (su_thread this) (setUnwinding False)"

definition ScopedDeadlySignal_ctor ::
  "thread_ptr \<Rightarrow> thread_heap \<Rightarrow> fault + (ScopedDeadlySignal \<times> thread_heap)" where
  "ScopedDeadlySignal_ctor t h =
     (let this = \<lparr>sds_thread = t\<rparr>
      in if sds_thread this \<noteq> NullThread
         then (case call_on_thread h (sds_thread this) (setInDeadlySignal True) of
                 Inl e \<Rightarrow> Inl e
               | Inr h' \<Rightarrow> Inr (this, h'))
         else Inr (this, h))"

definition ScopedDeadlySignal_dtor ::
  "ScopedDeadlySignal \<Rightarrow> thread_heap \<Rightarrow> fault + thread_heap" where
  "ScopedDeadlySignal_dtor this h =
     (if sds_thread this \<noteq> NullThread
      then call_on_thread h (sds_thread this) (setInDeadlySignal False)
      else Inr h)"

subsection \<open>Observations and example states\<close>

text \<open>
  What a reader of the committed roles sees in a state: the descriptor behind
  \<^verbatim>\<open>previous_stack_\<close> and the one behind \<^verbatim>\<open>next_stack_\<close>.
\<close>

definition committed_view ::
  "AsanThread \<Rightarrow> (fault + StackDescriptor) \<times> (fault + StackDescriptor)" where
  "committed_view s = (load_sd s (previous_stack_m s), load_sd s (next_stack_m s))"

text \<open>\<^verbatim>\<open>*CurrentStack()\<close> after a sequence of calls.\<close>

definition CurrentStack_after ::
  "stack_op list \<Rightarrow> AsanThread \<Rightarrow> uptr \<Rightarrow> fault + StackDescriptor" where
  "CurrentStack_after cs t sp =
     (case run_ops cs t of Inl e \<Rightarrow> Inl e | Inr t' \<Rightarrow> CurrentStack_sd t' sp)"

text \<open>
  A thread whose previous role holds the range from 0x7000 to 0x8000, whose next role
  holds the range from 0x5000 to 0x6000, and whose temp slot is still zero.
\<close>

definition ex_previous :: StackDescriptor where
  "ex_previous = \<lparr>stack_top = 0x8000, stack_bottom = 0x7000, stack_size = 0x1000\<rparr>"

definition ex_next :: StackDescriptor where
  "ex_next = \<lparr>stack_top = 0x6000, stack_bottom = 0x5000, stack_size = 0x1000\<rparr>"

definition ex_thread :: AsanThread where
  "ex_thread =
     \<lparr>stacks_m = [ex_previous, ex_next, zero_StackDescriptor],
      temp_stack_m = StacksElem 2, next_stack_m = StacksElem 1,
      previous_stack_m = StacksElem 0,
      tls_begin_m = 0, tls_end_m = 0, fake_stack_m = 0,
      unwinding_m = False, in_deadly_signal_m = False\<rparr>"

text \<open>A world around that thread, with the fake-stack pointer \<open>fs\<close> in both places.\<close>

definition ex_world :: "uptr \<Rightarrow> AsanWorld" where
  "ex_world fs =
     \<lparr>thr = ex_thread\<lparr>fake_stack_m := fs\<rparr>, tls_fake_stack = fs, Destroy_calls = []\<rparr>"

text \<open>The world \<open>ex_world fs\<close> after \<^verbatim>\<open>DeleteFakeStack(tid)\<close>, for a fake stack \<open>fs\<close>.\<close>

definition ex_world_deleted :: "uptr \<Rightarrow> c_int \<Rightarrow> AsanWorld" where
  "ex_world_deleted fs tid =
     \<lparr>thr = ex_thread, tls_fake_stack = 0,
      Destroy_calls = [\<lparr>receiver = fs, tid_arg = tid, seen_fake_stack = 0,
        seen_tls_fake_stack = 0\<rparr>]\<rparr>"

text \<open>The range that \<^verbatim>\<open>SetUserStack(0x1000, 0x1000)\<close> installs.\<close>

definition ex_new :: StackDescriptor where
  "ex_new = \<lparr>stack_top = 0x2000, stack_bottom = 0x1000, stack_size = 0x1000\<rparr>"

section \<open>Auxiliary facts\<close>

subsection \<open>The result of a rotation\<close>

lemma sd_updates:
  "d\<lparr>stack_bottom := b, stack_top := tp, stack_size := s\<rparr>
     = \<lparr>stack_top = tp, stack_bottom = b, stack_size = s\<rparr>"
  by (cases d) simp

lemma SetUserStack_result:
  assumes "temp_stack_m t = StacksElem k" and "k < length (stacks_m t)"
  shows "SetUserStack base sz t =
     Inr (t\<lparr>stacks_m := (stacks_m t)[k := \<lparr>stack_top = base + sz, stack_bottom = base, stack_size = sz\<rparr>],
            temp_stack_m := previous_stack_m t,
            next_stack_m := StacksElem k,
            previous_stack_m := next_stack_m t\<rparr>)"
  using assms by (simp add: SetUserStack_def Let_def sd_updates)

lemma SetUserStack_trace_result:
  assumes "temp_stack_m t = StacksElem k" and "k < length (stacks_m t)"
  shows "SetUserStack_trace base sz t =
     Inr (let d0 = stacks_m t ! k;
              t1 = t\<lparr>stacks_m := (stacks_m t)[k := d0\<lparr>stack_bottom := base\<rparr>]\<rparr>;
              t2 = t\<lparr>stacks_m := (stacks_m t)[k := d0\<lparr>stack_bottom := base, stack_top := base + sz\<rparr>]\<rparr>;
              t3 = t\<lparr>stacks_m := (stacks_m t)[k := \<lparr>stack_top = base + sz, stack_bottom = base, stack_size = sz\<rparr>]\<rparr>;
              t4 = t3\<lparr>previous_stack_m := next_stack_m t\<rparr>;
              t5 = t4\<lparr>next_stack_m := StacksElem k\<rparr>;
              t6 = t5\<lparr>temp_stack_m := previous_stack_m t\<rparr>
          in [t1, t2, t3, t4, t5, t6])"
  using assms by (simp add: SetUserStack_trace_def Let_def sd_updates)

lemma roles_ok_ptrs:
  assumes "roles_ok t"
  obtains i j k where "previous_stack_m t = StacksElem i" "next_stack_m t = StacksElem j"
    "temp_stack_m t = StacksElem k" "i < 3" "j < 3" "k < 3" "i \<noteq> j" "j \<noteq> k" "i \<noteq> k"
    "length (stacks_m t) = 3"
proof -
  from assms have len: "length (stacks_m t) = 3"
    and vp: "valid_ptr t (previous_stack_m t)" and vn: "valid_ptr t (next_stack_m t)"
    and vt: "valid_ptr t (temp_stack_m t)"
    and ne: "previous_stack_m t \<noteq> next_stack_m t" "next_stack_m t \<noteq> temp_stack_m t"
      "previous_stack_m t \<noteq> temp_stack_m t"
    by (simp_all add: roles_ok_def)
  from vp obtain i where i: "previous_stack_m t = StacksElem i" "i < 3"
    using len by (cases "previous_stack_m t") simp_all
  from vn obtain j where j: "next_stack_m t = StacksElem j" "j < 3"
    using len by (cases "next_stack_m t") simp_all
  from vt obtain k where k: "temp_stack_m t = StacksElem k" "k < 3"
    using len by (cases "temp_stack_m t") simp_all
  from ne i j k have "i \<noteq> j" "j \<noteq> k" "i \<noteq> k" by simp_all
  with i j k len show thesis by (blast intro: that)
qed

lemma roles_ok_loads:
  assumes "roles_ok t"
  shows "\<exists>dp dn dt. load_sd t (previous_stack_m t) = Inr dp \<and>
     load_sd t (next_stack_m t) = Inr dn \<and> load_sd t (temp_stack_m t) = Inr dt"
  using assms by (rule roles_ok_ptrs) simp

lemma roles_ok_cover:
  assumes "roles_ok t"
  shows "{previous_stack_m t, next_stack_m t, temp_stack_m t}
     = {StacksElem 0, StacksElem 1, StacksElem 2}"
proof -
  from assms obtain i j k where p: "previous_stack_m t = StacksElem i"
    "next_stack_m t = StacksElem j" "temp_stack_m t = StacksElem k"
    "i < 3" "j < 3" "k < 3" "i \<noteq> j" "j \<noteq> k" "i \<noteq> k"
    by (rule roles_ok_ptrs)
  have "{i, j, k} = {0, 1, 2}" using p(4-9) by auto
  then have "StacksElem ` {i, j, k} = StacksElem ` {0, 1, 2}" by simp
  with p(1-3) show ?thesis by simp
qed

lemma SetUserStack_roles:
  assumes "roles_ok t"
  shows "\<exists>t'. SetUserStack base sz t = Inr t' \<and> roles_ok t' \<and>
     previous_stack_m t' = next_stack_m t \<and> next_stack_m t' = temp_stack_m t \<and>
     temp_stack_m t' = previous_stack_m t \<and>
     load_sd t' (previous_stack_m t') = load_sd t (next_stack_m t) \<and>
     load_sd t' (next_stack_m t') =
       Inr \<lparr>stack_top = base + sz, stack_bottom = base, stack_size = sz\<rparr> \<and>
     load_sd t' (temp_stack_m t') = load_sd t (previous_stack_m t)"
proof -
  from assms obtain i j k where p: "previous_stack_m t = StacksElem i"
    "next_stack_m t = StacksElem j" "temp_stack_m t = StacksElem k"
    "i < 3" "j < 3" "k < 3" "i \<noteq> j" "j \<noteq> k" "i \<noteq> k" "length (stacks_m t) = 3"
    by (rule roles_ok_ptrs)
  have "SetUserStack base sz t =
     Inr (t\<lparr>stacks_m := (stacks_m t)[k := \<lparr>stack_top = base + sz, stack_bottom = base, stack_size = sz\<rparr>],
            temp_stack_m := previous_stack_m t,
            next_stack_m := StacksElem k,
            previous_stack_m := next_stack_m t\<rparr>)"
    using p by (simp add: SetUserStack_result)
  with p show ?thesis by (simp add: roles_ok_def)
qed

lemma RestorePreviousUserStack_roles:
  assumes "roles_ok t" and "load_sd t (previous_stack_m t) = Inr dp"
  shows "\<exists>t'. RestorePreviousUserStack t = Inr t' \<and> roles_ok t' \<and>
     previous_stack_m t' = next_stack_m t \<and> next_stack_m t' = temp_stack_m t \<and>
     temp_stack_m t' = previous_stack_m t \<and>
     load_sd t' (previous_stack_m t') = load_sd t (next_stack_m t) \<and>
     load_sd t' (temp_stack_m t') = Inr dp \<and>
     load_sd t' (next_stack_m t') =
       Inr \<lparr>stack_top = stack_bottom dp + stack_size dp, stack_bottom = stack_bottom dp,
            stack_size = stack_size dp\<rparr>"
proof -
  from assms(2) have "RestorePreviousUserStack t
      = SetUserStack (stack_bottom dp) (stack_size dp) t"
    by (simp add: RestorePreviousUserStack_def)
  with SetUserStack_roles [OF assms(1), of "stack_bottom dp" "stack_size dp"] assms(2)
  show ?thesis by auto
qed

lemma Set_then_Restore:
  assumes "roles_ok t"
    and "load_sd t (previous_stack_m t) = Inr dp"
    and "load_sd t (next_stack_m t) = Inr dn"
  shows "\<exists>t2. run_ops [CallSetUserStack base sz, CallRestorePreviousUserStack] t = Inr t2 \<and>
     roles_ok t2 \<and>
     load_sd t2 (previous_stack_m t2) =
       Inr \<lparr>stack_top = base + sz, stack_bottom = base, stack_size = sz\<rparr> \<and>
     load_sd t2 (next_stack_m t2) =
       Inr \<lparr>stack_top = stack_bottom dn + stack_size dn, stack_bottom = stack_bottom dn,
            stack_size = stack_size dn\<rparr> \<and>
     load_sd t2 (temp_stack_m t2) = Inr dn \<and>
     previous_stack_m t2 = temp_stack_m t \<and> next_stack_m t2 = previous_stack_m t \<and>
     temp_stack_m t2 = next_stack_m t"
proof -
  from SetUserStack_roles [OF assms(1), of base sz] obtain t1 where
    t1: "SetUserStack base sz t = Inr t1" "roles_ok t1"
      "previous_stack_m t1 = next_stack_m t" "next_stack_m t1 = temp_stack_m t"
      "temp_stack_m t1 = previous_stack_m t"
      "load_sd t1 (previous_stack_m t1) = load_sd t (next_stack_m t)"
      "load_sd t1 (next_stack_m t1) =
         Inr \<lparr>stack_top = base + sz, stack_bottom = base, stack_size = sz\<rparr>"
    by blast
  from t1(6) assms(3) have l1: "load_sd t1 (previous_stack_m t1) = Inr dn" by simp
  from RestorePreviousUserStack_roles [OF t1(2) l1] obtain t2 where
    t2: "RestorePreviousUserStack t1 = Inr t2" "roles_ok t2"
      "previous_stack_m t2 = next_stack_m t1" "next_stack_m t2 = temp_stack_m t1"
      "temp_stack_m t2 = previous_stack_m t1"
      "load_sd t2 (previous_stack_m t2) = load_sd t1 (next_stack_m t1)"
      "load_sd t2 (temp_stack_m t2) = Inr dn"
      "load_sd t2 (next_stack_m t2) =
         Inr \<lparr>stack_top = stack_bottom dn + stack_size dn, stack_bottom = stack_bottom dn,
              stack_size = stack_size dn\<rparr>"
    by blast
  with t1 t2 show ?thesis by simp
qed

lemma do_stores_program_order:
  "do_stores base sz t program_order t = SetUserStack_trace base sz t"
proof (cases "temp_stack_m t")
  case Nullptr
  then show ?thesis by (simp add: program_order_def SetUserStack_trace_def)
next
  case (StacksElem k)
  then show ?thesis
    by (simp add: program_order_def SetUserStack_trace_def Let_def)
qed

subsection \<open>The current descriptor\<close>

lemma CurrentStack_val:
  "load_sd t (previous_stack_m t) = Inr dp \<Longrightarrow>
   CurrentStack t sp = Inr (if in_range dp sp then previous_stack_m t else next_stack_m t)"
  by (simp add: CurrentStack_def AddrIsInStack_sd_def)

lemma CurrentStack_sd_val:
  "load_sd t (previous_stack_m t) = Inr dp \<Longrightarrow> load_sd t (next_stack_m t) = Inr dn \<Longrightarrow>
   CurrentStack_sd t sp = Inr (if in_range dp sp then dp else dn)"
  by (simp add: CurrentStack_sd_def CurrentStack_val)

lemma committed_view_CurrentStack_sd:
  "committed_view s = (Inr a, Inr b) \<Longrightarrow>
   CurrentStack_sd s sp = Inr (if in_range a sp then a else b)"
  by (simp add: committed_view_def CurrentStack_sd_val)

subsection \<open>Consistency of the committed descriptors\<close>

lemma ptr_consistent_load:
  "ptr_consistent t p \<longleftrightarrow> (\<exists>d. load_sd t p = Inr d \<and> sd_consistent d)"
  by (cases p) auto

lemma sd_consistent_new:
  "sd_consistent \<lparr>stack_top = base + sz, stack_bottom = base, stack_size = sz\<rparr>"
  by (simp add: sd_consistent_def)

lemma SetUserStack_consistent:
  assumes "roles_ok t"
  shows "\<exists>t'. SetUserStack base sz t = Inr t' \<and> roles_ok t' \<and>
     (committed_consistent t \<longrightarrow> committed_consistent t')"
proof -
  from SetUserStack_roles [OF assms, of base sz] obtain t' where
    t': "SetUserStack base sz t = Inr t'" "roles_ok t'"
      "load_sd t' (previous_stack_m t') = load_sd t (next_stack_m t)"
      "load_sd t' (next_stack_m t') =
         Inr \<lparr>stack_top = base + sz, stack_bottom = base, stack_size = sz\<rparr>"
    by blast
  then have "committed_consistent t \<longrightarrow> committed_consistent t'"
    by (simp add: committed_consistent_def ptr_consistent_load sd_consistent_new)
  with t' show ?thesis by blast
qed

lemma RestorePreviousUserStack_consistent:
  assumes "roles_ok t"
  shows "\<exists>t'. RestorePreviousUserStack t = Inr t' \<and> roles_ok t' \<and>
     (committed_consistent t \<longrightarrow> committed_consistent t')"
proof -
  from roles_ok_loads [OF assms] obtain dp where
    dp: "load_sd t (previous_stack_m t) = Inr dp" by blast
  from RestorePreviousUserStack_roles [OF assms dp] obtain t' where
    t': "RestorePreviousUserStack t = Inr t'" "roles_ok t'"
      "load_sd t' (previous_stack_m t') = load_sd t (next_stack_m t)"
      "load_sd t' (next_stack_m t') =
        Inr \<lparr>stack_top = stack_bottom dp + stack_size dp, stack_bottom = stack_bottom dp,
             stack_size = stack_size dp\<rparr>"
    by blast
  then have "committed_consistent t \<longrightarrow> committed_consistent t'"
    by (simp add: committed_consistent_def ptr_consistent_load sd_consistent_new)
  with t' show ?thesis by blast
qed

lemma run_op_consistent:
  assumes "roles_ok t"
  shows "\<exists>t'. run_op c t = Inr t' \<and> roles_ok t' \<and>
     (committed_consistent t \<longrightarrow> committed_consistent t')"
proof (cases c)
  case (CallSetUserStack base sz)
  with SetUserStack_consistent [OF assms, of base sz] show ?thesis by simp
next
  case CallRestorePreviousUserStack
  with RestorePreviousUserStack_consistent [OF assms] show ?thesis by simp
qed

lemma run_ops_consistent:
  "roles_ok t \<Longrightarrow> \<exists>t'. run_ops cs t = Inr t' \<and> roles_ok t' \<and>
     (committed_consistent t \<longrightarrow> committed_consistent t')"
proof (induction cs arbitrary: t)
  case Nil
  then show ?case by simp
next
  case (Cons c cs)
  from run_op_consistent [OF Cons.prems, of c] obtain t1 where
    t1: "run_op c t = Inr t1" "roles_ok t1"
      "committed_consistent t \<longrightarrow> committed_consistent t1"
    by blast
  from Cons.IH [OF t1(2)] obtain t' where
    "run_ops cs t1 = Inr t'" "roles_ok t'" "committed_consistent t1 \<longrightarrow> committed_consistent t'"
    by blast
  with t1 show ?case by simp
qed

subsection \<open>The fake stack\<close>

lemma fake_stack_disabled: "fake_stack lazy_init 0 w = (0, w)"
  by (simp add: fake_stack_def)

lemma has_fake_stack_iff: "has_fake_stack t \<longleftrightarrow> fake_stack_m t \<noteq> 0 \<and> fake_stack_m t \<noteq> 1"
proof -
  have "(1 < x) = (x \<noteq> 0 \<and> x \<noteq> 1)" for x :: uptr
    using linorder_less_linear by fastforce
  then show ?thesis by (simp add: has_fake_stack_def)
qed

lemma DeleteFakeStack_null:
  "fake_stack_m (thr w) = 0 \<Longrightarrow> DeleteFakeStack tid w = Inr w"
  by (simp add: DeleteFakeStack_def)

lemma DeleteFakeStack_Inr_cleared:
  "DeleteFakeStack tid w = Inr w' \<Longrightarrow> fake_stack_m (thr w') = 0"
  by (auto simp: DeleteFakeStack_def Let_def FakeStack_Destroy_def SetTLSFakeStack_def
      split: if_splits)

subsection \<open>The example thread\<close>

lemma ex_thread_loads:
  "load_sd ex_thread (previous_stack_m ex_thread) = Inr ex_previous"
  "load_sd ex_thread (next_stack_m ex_thread) = Inr ex_next"
  "load_sd ex_thread (temp_stack_m ex_thread) = Inr zero_StackDescriptor"
  by (simp_all add: ex_thread_def)

lemma ex_thread_roles_ok: "roles_ok ex_thread"
  by (simp add: roles_ok_def ex_thread_def)

lemma ex_thread_consistent: "committed_consistent ex_thread"
  by (simp add: committed_consistent_def sd_consistent_def ex_thread_def
      ex_previous_def ex_next_def)

section \<open>Properties of the thread object and of the guards\<close>

subsection \<open>C1: membership in the stack\<close>

text \<open>
  C1 says that \<^verbatim>\<open>AddrIsInStack(addr)\<close> is true if and only if the address lies in
  exactly one of the ranges of the two committed slots, and never on account of the
  temp slot. The code answers for one slot only, the one \<^verbatim>\<open>CurrentStack()\<close> selects.
  Amended claim C1: when the previous and the next pointers designate descriptors,
  \<^verbatim>\<open>AddrIsInStack(addr)\<close> returns, and it is true if and only if \<open>addr\<close> lies in the
  range from bottom (included) to top (excluded) of the committed slot that
  \<^verbatim>\<open>CurrentStack()\<close> selects: the previous slot when the caller's stack address \<open>sp\<close>
  lies in the previous slot's range, the next slot otherwise. So a true answer places
  \<open>addr\<close> in the range of the previous or of the next slot. The answer depends neither
  on the temp pointer nor on the contents of a slot that neither committed pointer
  designates, as is the slot in the temp role.
\<close>

theorem AddrIsInStack_current_range:
  assumes "load_sd t (previous_stack_m t) = Inr dp"
    and "load_sd t (next_stack_m t) = Inr dn"
  shows "AddrIsInStack t sp addr =
           Inr (if in_range dp sp then in_range dp addr else in_range dn addr) \<and>
         (AddrIsInStack t sp addr = Inr True \<longrightarrow> in_range dp addr \<or> in_range dn addr) \<and>
         AddrIsInStack (t\<lparr>temp_stack_m := p\<rparr>) sp addr = AddrIsInStack t sp addr \<and>
         (previous_stack_m t \<noteq> StacksElem k \<and> next_stack_m t \<noteq> StacksElem k \<longrightarrow>
            AddrIsInStack (t\<lparr>stacks_m := (stacks_m t)[k := d]\<rparr>) sp addr
              = AddrIsInStack t sp addr)"
proof (intro conjI impI)
  show cur: "AddrIsInStack t sp addr =
      Inr (if in_range dp sp then in_range dp addr else in_range dn addr)"
    using assms by (simp add: AddrIsInStack_def CurrentStack_val AddrIsInStack_sd_def)
  show "in_range dp addr \<or> in_range dn addr" if "AddrIsInStack t sp addr = Inr True"
    using that cur by (simp split: if_splits)
  show "AddrIsInStack (t\<lparr>temp_stack_m := p\<rparr>) sp addr = AddrIsInStack t sp addr"
    by (cases "previous_stack_m t"; cases "next_stack_m t")
      (simp_all add: AddrIsInStack_def CurrentStack_def AddrIsInStack_sd_def)
  show "AddrIsInStack (t\<lparr>stacks_m := (stacks_m t)[k := d]\<rparr>) sp addr = AddrIsInStack t sp addr"
    if ne: "previous_stack_m t \<noteq> StacksElem k \<and> next_stack_m t \<noteq> StacksElem k"
  proof -
    let ?t' = "t\<lparr>stacks_m := (stacks_m t)[k := d]\<rparr>"
    have lp: "load_sd ?t' (previous_stack_m ?t') = Inr dp"
      using assms(1) ne by (cases "previous_stack_m t") (simp_all split: if_splits)
    have ln: "load_sd ?t' (next_stack_m ?t') = Inr dn"
      using assms(2) ne by (cases "next_stack_m t") (simp_all split: if_splits)
    have "AddrIsInStack ?t' sp addr =
        Inr (if in_range dp sp then in_range dp addr else in_range dn addr)"
      using lp ln by (simp add: AddrIsInStack_def CurrentStack_val AddrIsInStack_sd_def)
    with cur show ?thesis by simp
  qed
qed

text \<open>
  C1, instances on the example thread: for a caller on the next stack the last address
  of that stack is a member and its top is not, also when the temp pointer is null; for
  a caller on the previous stack an address of the next stack is not a member, also
  when the temp slot is overwritten with a range that holds the address.
\<close>

theorem AddrIsInStack_current_range_witness:
  "load_sd ex_thread (previous_stack_m ex_thread) = Inr ex_previous \<and>
   load_sd ex_thread (next_stack_m ex_thread) = Inr ex_next \<and>
   previous_stack_m ex_thread \<noteq> StacksElem 2 \<and>
   next_stack_m ex_thread \<noteq> StacksElem 2 \<and>
   AddrIsInStack ex_thread 0x5800 0x5fff = Inr True \<and>
   in_range ex_next 0x5fff \<and>
   AddrIsInStack ex_thread 0x5800 0x6000 = Inr False \<and>
   AddrIsInStack (ex_thread\<lparr>temp_stack_m := Nullptr\<rparr>) 0x5800 0x5fff = Inr True \<and>
   AddrIsInStack (ex_thread\<lparr>stacks_m := (stacks_m ex_thread)[2 := ex_next]\<rparr>) 0x7800 0x5800
     = Inr False"
proof -
  have h: "previous_stack_m ex_thread \<noteq> StacksElem 2" "next_stack_m ex_thread \<noteq> StacksElem 2"
    by (simp_all add: ex_thread_def)
  have r: "\<not> in_range ex_previous 0x5800" "in_range ex_next 0x5fff"
    "\<not> in_range ex_next 0x6000" "in_range ex_previous 0x7800" "\<not> in_range ex_previous 0x5fff"
    by (simp_all add: in_range_def ex_previous_def ex_next_def)
  note th = AddrIsInStack_current_range [OF ex_thread_loads(1) ex_thread_loads(2)]
  from th [where sp = "0x5800" and addr = "0x5fff" and k = 2 and d = ex_next and p = Nullptr] r
  have a: "AddrIsInStack ex_thread 0x5800 0x5fff = Inr True"
    "AddrIsInStack (ex_thread\<lparr>temp_stack_m := Nullptr\<rparr>) 0x5800 0x5fff = Inr True"
    by simp_all
  from th [where sp = "0x5800" and addr = "0x6000" and k = 2 and d = ex_next and p = Nullptr] r
  have b: "AddrIsInStack ex_thread 0x5800 0x6000 = Inr False" by simp
  from th [where sp = "0x7800" and addr = "0x5800" and k = 2 and d = ex_next and p = Nullptr] r h
  have c: "AddrIsInStack (ex_thread\<lparr>stacks_m := (stacks_m ex_thread)[2 := ex_next]\<rparr>)
      0x7800 0x5800 = Inr False"
    by simp
  from a b c h r ex_thread_loads(1,2) show ?thesis by simp
qed

text \<open>
  C1 as stated fails: the address 0x5800 lies in the next slot's range and not in the
  previous slot's range, so in exactly one of the two, and yet a caller that stands on
  the previous stack (at 0x7800) is told that it is not in the stack.
\<close>

theorem AddrIsInStack_exactly_one_counterexample:
  "load_sd ex_thread (previous_stack_m ex_thread) = Inr ex_previous \<and>
   load_sd ex_thread (next_stack_m ex_thread) = Inr ex_next \<and>
   \<not> in_range ex_previous 0x5800 \<and> in_range ex_next 0x5800 \<and>
   AddrIsInStack ex_thread 0x7800 0x5800 = Inr False"
  by (simp add: ex_thread_loads AddrIsInStack_def CurrentStack_val AddrIsInStack_sd_def
      in_range_def ex_previous_def ex_next_def)

subsection \<open>C2: setting a user stack and restoring the previous one\<close>

text \<open>
  C2 says that after \<^verbatim>\<open>SetUserStack(base, size)\<close> and
  \<^verbatim>\<open>RestorePreviousUserStack()\<close>, \<^verbatim>\<open>CurrentStack()\<close> yields the bounds that were
  current before the first call. \<^verbatim>\<open>RestorePreviousUserStack\<close> re-installs the bottom
  and the size of the descriptor that was in the next role before the first call,
  whatever \<^verbatim>\<open>CurrentStack()\<close> selected then.
  Amended claim C2: for every thread whose three role pointers designate three
  different slots, the two calls return, and \<^verbatim>\<open>CurrentStack()\<close> then yields the new
  range (top \<open>base + size\<close>, bottom \<open>base\<close>, size \<open>size\<close>) when the caller's stack
  address lies in it, and otherwise the bottom and the size of the descriptor that was
  in the next role before the first call, with top = bottom + size. Hence, when that
  descriptor satisfied size = top - bottom and the caller's stack address lies neither
  in the range that was in the previous role before the first call nor in the new
  range, \<^verbatim>\<open>CurrentStack()\<close> yields the bounds that were current before the first call.
\<close>

theorem SetUserStack_then_RestorePreviousUserStack:
  assumes "roles_ok t"
    and "load_sd t (previous_stack_m t) = Inr dp"
    and "load_sd t (next_stack_m t) = Inr dn"
  shows "CurrentStack_after [CallSetUserStack base sz, CallRestorePreviousUserStack] t sp =
       Inr (if in_range \<lparr>stack_top = base + sz, stack_bottom = base, stack_size = sz\<rparr> sp
            then \<lparr>stack_top = base + sz, stack_bottom = base, stack_size = sz\<rparr>
            else \<lparr>stack_top = stack_bottom dn + stack_size dn, stack_bottom = stack_bottom dn,
                  stack_size = stack_size dn\<rparr>) \<and>
     (sd_consistent dn \<and> \<not> in_range dp sp \<and>
      \<not> in_range \<lparr>stack_top = base + sz, stack_bottom = base, stack_size = sz\<rparr> sp \<longrightarrow>
        CurrentStack_sd t sp = Inr dn \<and>
        CurrentStack_after [CallSetUserStack base sz, CallRestorePreviousUserStack] t sp = Inr dn)"
proof -
  from Set_then_Restore [OF assms, of base sz] obtain t2 where
    t2: "run_ops [CallSetUserStack base sz, CallRestorePreviousUserStack] t = Inr t2"
      "load_sd t2 (previous_stack_m t2) =
         Inr \<lparr>stack_top = base + sz, stack_bottom = base, stack_size = sz\<rparr>"
      "load_sd t2 (next_stack_m t2) =
         Inr \<lparr>stack_top = stack_bottom dn + stack_size dn, stack_bottom = stack_bottom dn,
              stack_size = stack_size dn\<rparr>"
    by blast
  have after: "CurrentStack_after [CallSetUserStack base sz, CallRestorePreviousUserStack] t sp =
       Inr (if in_range \<lparr>stack_top = base + sz, stack_bottom = base, stack_size = sz\<rparr> sp
            then \<lparr>stack_top = base + sz, stack_bottom = base, stack_size = sz\<rparr>
            else \<lparr>stack_top = stack_bottom dn + stack_size dn, stack_bottom = stack_bottom dn,
                  stack_size = stack_size dn\<rparr>)"
    unfolding CurrentStack_after_def t2(1) using CurrentStack_sd_val [OF t2(2) t2(3)] by simp
  have norm: "sd_consistent dn \<Longrightarrow>
      \<lparr>stack_top = stack_bottom dn + stack_size dn, stack_bottom = stack_bottom dn,
       stack_size = stack_size dn\<rparr> = dn"
    by (cases dn) (simp add: sd_consistent_def)
  have before: "\<not> in_range dp sp \<Longrightarrow> CurrentStack_sd t sp = Inr dn"
    using CurrentStack_sd_val [OF assms(2,3)] by simp
  from after norm before show ?thesis by simp
qed

text \<open>
  C2, an instance: the caller stands on the next stack of the example thread, at 0x5800;
  after \<^verbatim>\<open>SetUserStack(0x1000, 0x1000)\<close> and \<^verbatim>\<open>RestorePreviousUserStack()\<close> the
  current descriptor is again the one from 0x5000 to 0x6000.
\<close>

theorem SetUserStack_then_RestorePreviousUserStack_witness:
  "roles_ok ex_thread \<and>
   load_sd ex_thread (previous_stack_m ex_thread) = Inr ex_previous \<and>
   load_sd ex_thread (next_stack_m ex_thread) = Inr ex_next \<and>
   sd_consistent ex_next \<and> \<not> in_range ex_previous 0x5800 \<and>
   \<not> in_range \<lparr>stack_top = 0x1000 + 0x1000, stack_bottom = 0x1000, stack_size = 0x1000\<rparr> 0x5800 \<and>
   CurrentStack_sd ex_thread 0x5800 = Inr ex_next \<and>
   CurrentStack_after [CallSetUserStack 0x1000 0x1000, CallRestorePreviousUserStack]
     ex_thread 0x5800 = Inr ex_next"
proof -
  have h: "sd_consistent ex_next" "\<not> in_range ex_previous 0x5800"
    "\<not> in_range \<lparr>stack_top = 0x1000 + 0x1000, stack_bottom = 0x1000, stack_size = 0x1000\<rparr> 0x5800"
    by (simp_all add: sd_consistent_def in_range_def ex_next_def ex_previous_def)
  from SetUserStack_then_RestorePreviousUserStack
    [OF ex_thread_roles_ok ex_thread_loads(1) ex_thread_loads(2), of "0x1000" "0x1000" "0x5800"] h
  have "CurrentStack_sd ex_thread 0x5800 = Inr ex_next \<and>
    CurrentStack_after [CallSetUserStack 0x1000 0x1000, CallRestorePreviousUserStack]
      ex_thread 0x5800 = Inr ex_next"
    by blast
  with h ex_thread_roles_ok ex_thread_loads show ?thesis by blast
qed

text \<open>
  C2 as stated fails: a caller at 0x7800 stands on the stack held by the previous role,
  which is therefore the current one; after the two calls \<^verbatim>\<open>CurrentStack()\<close> yields
  the range from 0x5000 to 0x6000, not the range from 0x7000 to 0x8000 that was current
  before.
\<close>

theorem RestorePreviousUserStack_original_counterexample:
  "roles_ok ex_thread \<and> committed_consistent ex_thread \<and>
   in_range ex_previous 0x7800 \<and>
   CurrentStack_sd ex_thread 0x7800 = Inr ex_previous \<and>
   CurrentStack_after [CallSetUserStack 0x1000 0x1000, CallRestorePreviousUserStack]
     ex_thread 0x7800 = Inr ex_next \<and>
   ex_next \<noteq> ex_previous"
proof -
  have "committed_consistent ex_thread"
    by (simp add: committed_consistent_def sd_consistent_def ex_thread_def
        ex_previous_def ex_next_def)
  moreover have "in_range ex_previous 0x7800" "ex_next \<noteq> ex_previous"
    by (simp_all add: in_range_def ex_previous_def ex_next_def)
  moreover have "CurrentStack_sd ex_thread 0x7800 = Inr ex_previous"
    using CurrentStack_sd_val [OF ex_thread_loads(1) ex_thread_loads(2), of "0x7800"]
    by (simp add: in_range_def ex_previous_def)
  moreover have "CurrentStack_after [CallSetUserStack 0x1000 0x1000, CallRestorePreviousUserStack]
     ex_thread 0x7800 = Inr ex_next"
    by (simp add: in_range_def CurrentStack_after_def RestorePreviousUserStack_def
        SetUserStack_def CurrentStack_sd_def CurrentStack_def AddrIsInStack_sd_def Let_def
        ex_thread_def ex_previous_def ex_next_def zero_StackDescriptor_def)
  ultimately show ?thesis using ex_thread_roles_ok by simp
qed

subsection \<open>C3: the guards and a null thread\<close>

text \<open>
  C3 says that both scoped guards are no-ops on entry and on exit when the thread
  pointer is null. \<^verbatim>\<open>ScopedDeadlySignal\<close> tests the pointer in its constructor and
  in its destructor and leaves the heap as it is. \<^verbatim>\<open>ScopedUnwinding\<close> calls
  \<^verbatim>\<open>t->setUnwinding(true)\<close> and \<^verbatim>\<open>thread->setUnwinding(false)\<close> without a test: with a
  null pointer both dereference null.
\<close>

theorem scoped_guards_null_thread:
  "ScopedDeadlySignal_ctor NullThread h = Inr (\<lparr>sds_thread = NullThread\<rparr>, h) \<and>
   ScopedDeadlySignal_dtor \<lparr>sds_thread = NullThread\<rparr> h = Inr h \<and>
   ScopedUnwinding_ctor NullThread h = Inl NullDeref \<and>
   ScopedUnwinding_dtor \<lparr>su_thread = NullThread\<rparr> h = Inl NullDeref"
  by (simp add: ScopedDeadlySignal_ctor_def ScopedDeadlySignal_dtor_def
      ScopedUnwinding_ctor_def ScopedUnwinding_dtor_def)

subsection \<open>C4: the accessor when the feature is disabled\<close>

text \<open>
  C4: when \<^verbatim>\<open>__asan_option_detect_stack_use_after_return\<close> is zero, \<^verbatim>\<open>fake_stack()\<close>
  returns the null pointer and leaves the world as it is, whatever the state of the
  thread and whatever \<^verbatim>\<open>AsyncSignalSafeLazyInitFakeStack\<close> would do, which is
  therefore not called; \<open>n\<close> calls in a row return \<open>n\<close> null pointers and leave
  the world as it is.
\<close>

theorem fake_stack_disabled_always_none:
  "fake_stack lazy_init 0 w = (0, w) \<and>
   fake_stack_calls lazy_init 0 n w = (replicate n 0, w)"
proof
  show "fake_stack lazy_init 0 w = (0, w)" by (rule fake_stack_disabled)
  show "fake_stack_calls lazy_init 0 n w = (replicate n 0, w)"
    by (induction n) (simp_all add: fake_stack_disabled)
qed

subsection \<open>C5: deleting the fake stack\<close>

text \<open>
  C5 says that \<^verbatim>\<open>DeleteFakeStack(tid)\<close> is a no-op whenever no fake stack exists, and
  that it otherwise clears the field and detaches the thread-local reference before it
  invokes the teardown, leaving \<^verbatim>\<open>has_fake_stack()\<close> false. \<^verbatim>\<open>has_fake_stack()\<close>
  tests \<^verbatim>\<open>fake_stack_ > 1\<close>, and \<^verbatim>\<open>fake_stack()\<close> follows it: for both, the reserved
  value 1 is no fake stack. \<^verbatim>\<open>DeleteFakeStack\<close> tests \<^verbatim>\<open>!fake_stack_\<close> only. With the
  value 1 in the field no fake stack exists, and yet the method goes past its test,
  clears the field and the thread-local slot, and calls \<^verbatim>\<open>Destroy(tid)\<close> through the
  pointer 1. The rest of C5 holds: with a null field the method is a no-op; when
  \<^verbatim>\<open>has_fake_stack()\<close> holds, one call of \<^verbatim>\<open>Destroy(tid)\<close> on the old pointer is
  added, and it is entered with the field and the thread-local slot already null;
  after every call that returns, \<^verbatim>\<open>has_fake_stack()\<close> is false and a second call,
  with any tid, is a no-op.
\<close>

theorem DeleteFakeStack_reserved_value:
  "\<not> has_fake_stack ((thr w)\<lparr>fake_stack_m := 1\<rparr>) \<and>
   DeleteFakeStack tid (w\<lparr>thr := (thr w)\<lparr>fake_stack_m := 1\<rparr>\<rparr>) = Inl InvalidPointer \<and>
   (fake_stack_m (thr w) = 0 \<longrightarrow> DeleteFakeStack tid w = Inr w) \<and>
   (has_fake_stack (thr w) \<longrightarrow>
      DeleteFakeStack tid w =
        Inr (w\<lparr>thr := (thr w)\<lparr>fake_stack_m := 0\<rparr>, tls_fake_stack := 0,
               Destroy_calls := Destroy_calls w @
                 [\<lparr>receiver = fake_stack_m (thr w), tid_arg = tid, seen_fake_stack = 0,
                   seen_tls_fake_stack = 0\<rparr>]\<rparr>)) \<and>
   (\<forall>w'. DeleteFakeStack tid w = Inr w' \<longrightarrow>
      \<not> has_fake_stack (thr w') \<and> DeleteFakeStack tid' w' = Inr w')"
proof (intro conjI impI allI)
  show "\<not> has_fake_stack ((thr w)\<lparr>fake_stack_m := 1\<rparr>)"
    by (simp add: has_fake_stack_def)
  show "DeleteFakeStack tid (w\<lparr>thr := (thr w)\<lparr>fake_stack_m := 1\<rparr>\<rparr>) = Inl InvalidPointer"
    by (simp add: DeleteFakeStack_def Let_def FakeStack_Destroy_def)
next
  assume "fake_stack_m (thr w) = 0"
  then show "DeleteFakeStack tid w = Inr w" by (rule DeleteFakeStack_null)
next
  assume "has_fake_stack (thr w)"
  then have "fake_stack_m (thr w) \<noteq> 0" "fake_stack_m (thr w) \<noteq> 1"
    by (simp_all add: has_fake_stack_iff)
  then show "DeleteFakeStack tid w =
        Inr (w\<lparr>thr := (thr w)\<lparr>fake_stack_m := 0\<rparr>, tls_fake_stack := 0,
               Destroy_calls := Destroy_calls w @
                 [\<lparr>receiver = fake_stack_m (thr w), tid_arg = tid, seen_fake_stack = 0,
                   seen_tls_fake_stack = 0\<rparr>]\<rparr>)"
    by (simp add: DeleteFakeStack_def Let_def FakeStack_Destroy_def SetTLSFakeStack_def)
next
  fix w' assume "DeleteFakeStack tid w = Inr w'"
  then have z: "fake_stack_m (thr w') = 0" by (rule DeleteFakeStack_Inr_cleared)
  then show "\<not> has_fake_stack (thr w')" by (simp add: has_fake_stack_def)
  from z show "DeleteFakeStack tid' w' = Inr w'" by (rule DeleteFakeStack_null)
qed

text \<open>
  C5, instances: a world without a fake stack is left as it is; in a world whose fake
  stack is at 0x10000 the field and the thread-local slot become null, one call of
  \<^verbatim>\<open>Destroy(7)\<close> on 0x10000 is recorded, entered with both already null, and a second
  \<^verbatim>\<open>DeleteFakeStack(7)\<close> changes nothing; with the value 1 in the field the method
  faults although \<^verbatim>\<open>has_fake_stack()\<close> is false.
\<close>

theorem DeleteFakeStack_reserved_value_witness:
  "fake_stack_m (thr (ex_world 0)) = 0 \<and> DeleteFakeStack 7 (ex_world 0) = Inr (ex_world 0) \<and>
   has_fake_stack (thr (ex_world 0x10000)) \<and>
   DeleteFakeStack 7 (ex_world 0x10000) = Inr (ex_world_deleted 0x10000 7) \<and>
   \<not> has_fake_stack (thr (ex_world_deleted 0x10000 7)) \<and>
   DeleteFakeStack 7 (ex_world_deleted 0x10000 7) = Inr (ex_world_deleted 0x10000 7) \<and>
   \<not> has_fake_stack (thr (ex_world 1)) \<and>
   DeleteFakeStack 7 (ex_world 1) = Inl InvalidPointer"
proof -
  have a: "fake_stack_m (thr (ex_world 0)) = 0"
    by (simp add: ex_world_def)
  have b: "has_fake_stack (thr (ex_world 0x10000))"
    by (simp add: ex_world_def has_fake_stack_def)
  have c: "ex_world 0x10000 \<lparr>thr := (thr (ex_world 0x10000))\<lparr>fake_stack_m := 0\<rparr>,
       tls_fake_stack := 0,
       Destroy_calls := Destroy_calls (ex_world 0x10000) @
         [\<lparr>receiver = fake_stack_m (thr (ex_world 0x10000)), tid_arg = 7, seen_fake_stack = 0,
           seen_tls_fake_stack = 0\<rparr>]\<rparr>
     = ex_world_deleted 0x10000 7"
    by (simp add: ex_world_def ex_world_deleted_def ex_thread_def)
  have s: "ex_world 1\<lparr>thr := (thr (ex_world 1))\<lparr>fake_stack_m := 1\<rparr>\<rparr> = ex_world 1"
    "(thr (ex_world 1))\<lparr>fake_stack_m := 1\<rparr> = thr (ex_world 1)"
    by (simp_all add: ex_world_def)
  from DeleteFakeStack_reserved_value [of "ex_world 0" 7 7] a
  have d: "DeleteFakeStack 7 (ex_world 0) = Inr (ex_world 0)" by blast
  from DeleteFakeStack_reserved_value [of "ex_world 0x10000" 7 7] b
  have e: "DeleteFakeStack 7 (ex_world 0x10000) =
        Inr (ex_world 0x10000 \<lparr>thr := (thr (ex_world 0x10000))\<lparr>fake_stack_m := 0\<rparr>,
           tls_fake_stack := 0,
           Destroy_calls := Destroy_calls (ex_world 0x10000) @
             [\<lparr>receiver = fake_stack_m (thr (ex_world 0x10000)), tid_arg = 7,
               seen_fake_stack = 0, seen_tls_fake_stack = 0\<rparr>]\<rparr>)"
    and f: "\<forall>w'. DeleteFakeStack 7 (ex_world 0x10000) = Inr w' \<longrightarrow>
      \<not> has_fake_stack (thr w') \<and> DeleteFakeStack 7 w' = Inr w'"
    by blast+
  from e c have g: "DeleteFakeStack 7 (ex_world 0x10000) = Inr (ex_world_deleted 0x10000 7)"
    by simp
  with f have h: "\<not> has_fake_stack (thr (ex_world_deleted 0x10000 7)) \<and>
      DeleteFakeStack 7 (ex_world_deleted 0x10000 7) = Inr (ex_world_deleted 0x10000 7)"
    by blast
  from DeleteFakeStack_reserved_value [of "ex_world 1" 7 7]
  have i: "\<not> has_fake_stack (thr (ex_world 1)) \<and>
      DeleteFakeStack 7 (ex_world 1) = Inl InvalidPointer"
    by (simp add: s)
  from a b d g h i show ?thesis by blast
qed

subsection \<open>C6: what a signal sees during a rotation\<close>

text \<open>
  C6 says that the rotation is three pointer writes, previous := next, next := temp,
  temp := old previous, and that a signal handler which interrupts \<^verbatim>\<open>SetUserStack\<close>
  on the same thread sees one of two valid states; the comment above \<^verbatim>\<open>stacks_\<close> says
  that at any time either \<^verbatim>\<open>previous_stack_\<close> or \<^verbatim>\<open>next_stack_\<close> contains the correct
  stack information. That rests on the order of the three pointer writes, and the
  writes are plain stores, whose order the source leaves to the compiler. Let the
  three role pointers designate three different slots, the previous one holding
  \<open>dp\<close> and the next one holding \<open>dn\<close>, the stack the thread stands on. When the
  stores to \<^verbatim>\<open>next_stack_\<close> and \<^verbatim>\<open>temp_stack_\<close> come before the store to
  \<^verbatim>\<open>previous_stack_\<close>, the final state is the one \<^verbatim>\<open>SetUserStack\<close> returns, and the
  states in between have \<open>dp\<close> behind the previous pointer and the new range behind
  the next pointer: \<open>dn\<close> is behind neither, and \<^verbatim>\<open>CurrentStack()\<close>, called by a
  handler whose stack address is outside \<open>dp\<close>, yields the new range while the thread
  still stands on \<open>dn\<close>. Only in program order, in which the stores give the states of
  the trace above, is \<open>dn\<close> behind one of the two committed pointers throughout.
\<close>

theorem SetUserStack_stores_reordered:
  assumes "roles_ok t"
    and "load_sd t (previous_stack_m t) = Inr dp"
    and "load_sd t (next_stack_m t) = Inr dn"
  shows "do_stores base sz t program_order t = SetUserStack_trace base sz t \<and>
    (\<exists>s1 s2 s3 s4 s5 s6.
       do_stores base sz t next_first_order t = Inr [s1, s2, s3, s4, s5, s6] \<and>
       SetUserStack base sz t = Inr s6 \<and>
       map committed_view [s1, s2, s3, s4, s5, s6] =
         [(Inr dp, Inr dn), (Inr dp, Inr dn), (Inr dp, Inr dn),
          (Inr dp, Inr \<lparr>stack_top = base + sz, stack_bottom = base, stack_size = sz\<rparr>),
          (Inr dp, Inr \<lparr>stack_top = base + sz, stack_bottom = base, stack_size = sz\<rparr>),
          (Inr dn, Inr \<lparr>stack_top = base + sz, stack_bottom = base, stack_size = sz\<rparr>)] \<and>
       CurrentStack_sd s5 sp =
         Inr (if in_range dp sp then dp
              else \<lparr>stack_top = base + sz, stack_bottom = base, stack_size = sz\<rparr>))"
proof
  show "do_stores base sz t program_order t = SetUserStack_trace base sz t"
    by (rule do_stores_program_order)
next
  let ?N = "\<lparr>stack_top = base + sz, stack_bottom = base, stack_size = sz\<rparr>"
  from assms(1) obtain i j k where p: "previous_stack_m t = StacksElem i"
    "next_stack_m t = StacksElem j" "temp_stack_m t = StacksElem k"
    "i < 3" "j < 3" "k < 3" "i \<noteq> j" "j \<noteq> k" "i \<noteq> k" "length (stacks_m t) = 3"
    by (rule roles_ok_ptrs)
  from p assms(2,3) have d: "stacks_m t ! i = dp" "stacks_m t ! j = dn" by simp_all
  define s1 where "s1 = t\<lparr>stacks_m := (stacks_m t)[k := (stacks_m t ! k)\<lparr>stack_bottom := base\<rparr>]\<rparr>"
  define s2 where "s2 = t\<lparr>stacks_m := (stacks_m t)
      [k := (stacks_m t ! k)\<lparr>stack_bottom := base, stack_top := base + sz\<rparr>]\<rparr>"
  define s3 where "s3 = t\<lparr>stacks_m := (stacks_m t)[k := ?N]\<rparr>"
  define s4 where "s4 = s3\<lparr>next_stack_m := StacksElem k\<rparr>"
  define s5 where "s5 = s4\<lparr>temp_stack_m := previous_stack_m t\<rparr>"
  define s6 where "s6 = s5\<lparr>previous_stack_m := next_stack_m t\<rparr>"
  have tr: "do_stores base sz t next_first_order t = Inr [s1, s2, s3, s4, s5, s6]"
    using p by (simp add: next_first_order_def sd_updates s1_def s2_def s3_def s4_def
        s5_def s6_def)
  have fin: "SetUserStack base sz t = Inr s6"
    using p by (simp add: SetUserStack_result s3_def s4_def s5_def s6_def)
  have v: "committed_view s1 = (Inr dp, Inr dn)" "committed_view s2 = (Inr dp, Inr dn)"
    "committed_view s3 = (Inr dp, Inr dn)" "committed_view s4 = (Inr dp, Inr ?N)"
    "committed_view s5 = (Inr dp, Inr ?N)" "committed_view s6 = (Inr dn, Inr ?N)"
    using p d by (simp_all add: committed_view_def s1_def s2_def s3_def s4_def s5_def s6_def)
  have cur: "CurrentStack_sd s5 sp = Inr (if in_range dp sp then dp else ?N)"
    using v(5) by (rule committed_view_CurrentStack_sd)
  from tr fin v cur
  show "\<exists>s1 s2 s3 s4 s5 s6.
       do_stores base sz t next_first_order t = Inr [s1, s2, s3, s4, s5, s6] \<and>
       SetUserStack base sz t = Inr s6 \<and>
       map committed_view [s1, s2, s3, s4, s5, s6] =
         [(Inr dp, Inr dn), (Inr dp, Inr dn), (Inr dp, Inr dn),
          (Inr dp, Inr ?N), (Inr dp, Inr ?N), (Inr dn, Inr ?N)] \<and>
       CurrentStack_sd s5 sp = Inr (if in_range dp sp then dp else ?N)"
    by simp
qed

text \<open>
  C6, an instance: the example thread stands on its next stack, from 0x5000 to 0x6000,
  and calls \<^verbatim>\<open>SetUserStack(0x1000, 0x1000)\<close>. A handler at 0x5800, on that same stack,
  that runs after the fifth store of the second order is told that the current stack
  is the range from 0x1000 to 0x2000.
\<close>

theorem SetUserStack_stores_reordered_witness:
  "roles_ok ex_thread \<and>
   load_sd ex_thread (previous_stack_m ex_thread) = Inr ex_previous \<and>
   load_sd ex_thread (next_stack_m ex_thread) = Inr ex_next \<and>
   in_range ex_next 0x5800 \<and> \<not> in_range ex_previous 0x5800 \<and>
   ex_new \<noteq> ex_next \<and> ex_new \<noteq> ex_previous \<and>
   do_stores 0x1000 0x1000 ex_thread program_order ex_thread =
     SetUserStack_trace 0x1000 0x1000 ex_thread \<and>
   (\<exists>s1 s2 s3 s4 s5 s6.
       do_stores 0x1000 0x1000 ex_thread next_first_order ex_thread =
         Inr [s1, s2, s3, s4, s5, s6] \<and>
       SetUserStack 0x1000 0x1000 ex_thread = Inr s6 \<and>
       map committed_view [s1, s2, s3, s4, s5, s6] =
         [(Inr ex_previous, Inr ex_next), (Inr ex_previous, Inr ex_next),
          (Inr ex_previous, Inr ex_next), (Inr ex_previous, Inr ex_new),
          (Inr ex_previous, Inr ex_new), (Inr ex_next, Inr ex_new)] \<and>
       CurrentStack_sd s5 0x5800 = Inr ex_new)"
proof -
  have r: "in_range ex_next 0x5800" "\<not> in_range ex_previous 0x5800"
    "ex_new \<noteq> ex_next" "ex_new \<noteq> ex_previous"
    by (simp_all add: in_range_def ex_previous_def ex_next_def ex_new_def)
  have n: "\<lparr>stack_top = 0x1000 + 0x1000, stack_bottom = 0x1000, stack_size = 0x1000\<rparr> = ex_new"
    by (simp add: ex_new_def)
  from SetUserStack_stores_reordered
    [OF ex_thread_roles_ok ex_thread_loads(1) ex_thread_loads(2), of "0x1000" "0x1000" "0x5800"]
  have "do_stores 0x1000 0x1000 ex_thread program_order ex_thread =
     SetUserStack_trace 0x1000 0x1000 ex_thread \<and>
   (\<exists>s1 s2 s3 s4 s5 s6.
       do_stores 0x1000 0x1000 ex_thread next_first_order ex_thread =
         Inr [s1, s2, s3, s4, s5, s6] \<and>
       SetUserStack 0x1000 0x1000 ex_thread = Inr s6 \<and>
       map committed_view [s1, s2, s3, s4, s5, s6] =
         [(Inr ex_previous, Inr ex_next), (Inr ex_previous, Inr ex_next),
          (Inr ex_previous, Inr ex_next), (Inr ex_previous, Inr ex_new),
          (Inr ex_previous, Inr ex_new), (Inr ex_next, Inr ex_new)] \<and>
       CurrentStack_sd s5 0x5800 = Inr ex_new)"
    unfolding n using r(2) by simp
  with r ex_thread_roles_ok ex_thread_loads(1,2) show ?thesis by simp
qed

subsection \<open>C7: the rule of the current descriptor\<close>

text \<open>
  C7: for every thread whose previous and next pointers designate descriptors \<open>dp\<close>
  and \<open>dn\<close>, \<^verbatim>\<open>CurrentStack()\<close> returns the previous pointer when the caller's stack
  address lies in the range of \<open>dp\<close>, from bottom (included) to top (excluded), and
  the next pointer in every other case; \<^verbatim>\<open>stack_top()\<close>, \<^verbatim>\<open>stack_bottom()\<close>,
  \<^verbatim>\<open>stack_size()\<close> and \<^verbatim>\<open>AddrIsInStack(addr)\<close> answer from the descriptor so selected.
\<close>

theorem CurrentStack_rule:
  assumes "load_sd t (previous_stack_m t) = Inr dp"
    and "load_sd t (next_stack_m t) = Inr dn"
  shows "CurrentStack t sp =
           Inr (if in_range dp sp then previous_stack_m t else next_stack_m t) \<and>
    CurrentStack_sd t sp = Inr (if in_range dp sp then dp else dn) \<and>
    AsanThread_stack_top t sp = Inr (stack_top (if in_range dp sp then dp else dn)) \<and>
    AsanThread_stack_bottom t sp = Inr (stack_bottom (if in_range dp sp then dp else dn)) \<and>
    AsanThread_stack_size t sp = Inr (stack_size (if in_range dp sp then dp else dn)) \<and>
    AddrIsInStack t sp addr = Inr (in_range (if in_range dp sp then dp else dn) addr)"
  using assms
  by (simp add: CurrentStack_val CurrentStack_sd_def AsanThread_stack_top_def
      AsanThread_stack_bottom_def AsanThread_stack_size_def AddrIsInStack_def
      AddrIsInStack_sd_def)

text \<open>
  C7, instances on the example thread: a caller at 0x7800 is on the previous stack, a
  caller at 0x5800 or at 0x9000 is not.
\<close>

theorem CurrentStack_rule_witness:
  "load_sd ex_thread (previous_stack_m ex_thread) = Inr ex_previous \<and>
   load_sd ex_thread (next_stack_m ex_thread) = Inr ex_next \<and>
   CurrentStack ex_thread 0x7800 = Inr (StacksElem 0) \<and>
   CurrentStack ex_thread 0x5800 = Inr (StacksElem 1) \<and>
   CurrentStack ex_thread 0x9000 = Inr (StacksElem 1) \<and>
   AsanThread_stack_top ex_thread 0x7800 = Inr 0x8000 \<and>
   AsanThread_stack_bottom ex_thread 0x5800 = Inr 0x5000 \<and>
   AsanThread_stack_size ex_thread 0x5800 = Inr 0x1000 \<and>
   AddrIsInStack ex_thread 0x5800 0x5fff = Inr True"
proof -
  note th = CurrentStack_rule [OF ex_thread_loads(1) ex_thread_loads(2)]
  have p: "previous_stack_m ex_thread = StacksElem 0" "next_stack_m ex_thread = StacksElem 1"
    by (simp_all add: ex_thread_def)
  from th [where sp = "0x7800" and addr = 0] th [where sp = "0x5800" and addr = "0x5fff"]
    th [where sp = "0x9000" and addr = 0] ex_thread_loads(1,2)
  show ?thesis unfolding p by (simp add: in_range_def ex_previous_def ex_next_def)
qed

subsection \<open>C8: the zero-initialized thread\<close>

text \<open>
  C8 says that the all-zero thread object is a valid object without a stack and
  without a fake stack, whose public stack accessors can be evaluated. In that state
  \<^verbatim>\<open>has_fake_stack()\<close> is false, \<^verbatim>\<open>DeleteFakeStack\<close> is a no-op and both flags read
  false, as C8 says. The three role pointers are null, however, and \<^verbatim>\<open>CurrentStack()\<close>
  reads \<^verbatim>\<open>previous_stack_->stack_bottom\<close>: it dereferences null, and with it
  \<^verbatim>\<open>stack_top()\<close>, \<^verbatim>\<open>stack_bottom()\<close>, \<^verbatim>\<open>stack_size()\<close> and \<^verbatim>\<open>AddrIsInStack(addr)\<close>.
\<close>

theorem zero_AsanThread_accessors_fault:
  "\<not> has_fake_stack zero_AsanThread \<and>
   DeleteFakeStack tid (w\<lparr>thr := zero_AsanThread\<rparr>) = Inr (w\<lparr>thr := zero_AsanThread\<rparr>) \<and>
   \<not> isUnwinding zero_AsanThread \<and> \<not> isInDeadlySignal zero_AsanThread \<and>
   CurrentStack zero_AsanThread sp = Inl NullDeref \<and>
   AsanThread_stack_top zero_AsanThread sp = Inl NullDeref \<and>
   AsanThread_stack_bottom zero_AsanThread sp = Inl NullDeref \<and>
   AsanThread_stack_size zero_AsanThread sp = Inl NullDeref \<and>
   AddrIsInStack zero_AsanThread sp addr = Inl NullDeref"
  by (simp add: has_fake_stack_def DeleteFakeStack_def isUnwinding_def isInDeadlySignal_def
      CurrentStack_def AsanThread_stack_top_def AsanThread_stack_bottom_def
      AsanThread_stack_size_def AddrIsInStack_def AddrIsInStack_sd_def zero_AsanThread_def)

subsection \<open>C9: size = top - bottom in the committed roles\<close>

text \<open>
  C9: in a thread whose three role pointers designate three different slots and whose
  previous and next descriptors satisfy \<^verbatim>\<open>stack_size == stack_top - stack_bottom\<close>,
  \<^verbatim>\<open>SetUserStack(base, size)\<close> returns a thread whose next descriptor is
  (top \<open>base + size\<close>, bottom \<open>base\<close>, size \<open>size\<close>), which satisfies the equation, and
  whose previous and next descriptors satisfy it; they satisfy it after each of the
  six writes of the rotation, taken in program order, as well, after
  \<^verbatim>\<open>RestorePreviousUserStack()\<close>, and after every sequence of calls of the two
  methods. Nothing is asked of the temp slot.
\<close>

theorem committed_size_invariant:
  assumes "roles_ok t" and "committed_consistent t"
  shows "(\<exists>t'. SetUserStack base sz t = Inr t' \<and>
            load_sd t' (next_stack_m t') =
              Inr \<lparr>stack_top = base + sz, stack_bottom = base, stack_size = sz\<rparr> \<and>
            sd_consistent \<lparr>stack_top = base + sz, stack_bottom = base, stack_size = sz\<rparr> \<and>
            committed_consistent t') \<and>
         (\<exists>ts. SetUserStack_trace base sz t = Inr ts \<and>
            map committed_consistent ts = [True, True, True, True, True, True]) \<and>
         (\<exists>t'. RestorePreviousUserStack t = Inr t' \<and> committed_consistent t') \<and>
         (\<exists>t'. run_ops cs t = Inr t' \<and> committed_consistent t')"
proof (intro conjI)
  from SetUserStack_roles [OF assms(1), of base sz] SetUserStack_consistent [OF assms(1), of base sz]
    assms(2)
  show "\<exists>t'. SetUserStack base sz t = Inr t' \<and>
            load_sd t' (next_stack_m t') =
              Inr \<lparr>stack_top = base + sz, stack_bottom = base, stack_size = sz\<rparr> \<and>
            sd_consistent \<lparr>stack_top = base + sz, stack_bottom = base, stack_size = sz\<rparr> \<and>
            committed_consistent t'"
    by (auto simp: sd_consistent_new)
next
  from assms(1) obtain i j k where p: "previous_stack_m t = StacksElem i"
    "next_stack_m t = StacksElem j" "temp_stack_m t = StacksElem k"
    "i < 3" "j < 3" "k < 3" "i \<noteq> j" "j \<noteq> k" "i \<noteq> k" "length (stacks_m t) = 3"
    by (rule roles_ok_ptrs)
  from assms(2) p have c: "sd_consistent (stacks_m t ! i)" "sd_consistent (stacks_m t ! j)"
    by (simp_all add: committed_consistent_def)
  show "\<exists>ts. SetUserStack_trace base sz t = Inr ts \<and>
            map committed_consistent ts = [True, True, True, True, True, True]"
    using p c by (simp add: SetUserStack_trace_result Let_def committed_consistent_def
        sd_consistent_new)
next
  from RestorePreviousUserStack_consistent [OF assms(1)] assms(2)
  show "\<exists>t'. RestorePreviousUserStack t = Inr t' \<and> committed_consistent t'" by blast
next
  from run_ops_consistent [OF assms(1), of cs] assms(2)
  show "\<exists>t'. run_ops cs t = Inr t' \<and> committed_consistent t'" by blast
qed

text \<open>
  C9, an instance: the example thread, \<^verbatim>\<open>SetUserStack(0x1000, 0x1000)\<close>, and the
  sequence of that call and \<^verbatim>\<open>RestorePreviousUserStack()\<close>.
\<close>

theorem committed_size_invariant_witness:
  "roles_ok ex_thread \<and> committed_consistent ex_thread \<and>
   (\<exists>t'. SetUserStack 0x1000 0x1000 ex_thread = Inr t' \<and>
            load_sd t' (next_stack_m t') =
              Inr \<lparr>stack_top = 0x1000 + 0x1000, stack_bottom = 0x1000, stack_size = 0x1000\<rparr> \<and>
            sd_consistent
              \<lparr>stack_top = 0x1000 + 0x1000, stack_bottom = 0x1000, stack_size = 0x1000\<rparr> \<and>
            committed_consistent t') \<and>
   (\<exists>ts. SetUserStack_trace 0x1000 0x1000 ex_thread = Inr ts \<and>
            map committed_consistent ts = [True, True, True, True, True, True]) \<and>
   (\<exists>t'. RestorePreviousUserStack ex_thread = Inr t' \<and> committed_consistent t') \<and>
   (\<exists>t'. run_ops [CallSetUserStack 0x1000 0x1000, CallRestorePreviousUserStack] ex_thread
            = Inr t' \<and> committed_consistent t')"
proof (intro conjI)
  show "roles_ok ex_thread" by (rule ex_thread_roles_ok)
  show "committed_consistent ex_thread" by (rule ex_thread_consistent)
qed (insert committed_size_invariant [OF ex_thread_roles_ok ex_thread_consistent,
      of "0x1000" "0x1000" "[CallSetUserStack 0x1000 0x1000, CallRestorePreviousUserStack]"],
    blast+)

subsection \<open>C10: the role pointers are permuted\<close>

text \<open>
  C10: in a thread whose three role pointers designate three different elements of
  \<^verbatim>\<open>stacks_\<close>, \<^verbatim>\<open>SetUserStack\<close> returns and moves the pointers in a cycle (the new
  previous is the old next, the new next is the old temp, the new temp is the old
  previous); after every sequence of calls of \<^verbatim>\<open>SetUserStack\<close> and
  \<^verbatim>\<open>RestorePreviousUserStack\<close> the three pointers still designate three different
  elements, and together all of \<^verbatim>\<open>stacks_[0]\<close>, \<^verbatim>\<open>stacks_[1]\<close> and \<^verbatim>\<open>stacks_[2]\<close>.
\<close>

theorem role_pointers_permuted:
  assumes "roles_ok t"
  shows "(\<exists>t'. SetUserStack base sz t = Inr t' \<and>
            previous_stack_m t' = next_stack_m t \<and> next_stack_m t' = temp_stack_m t \<and>
            temp_stack_m t' = previous_stack_m t \<and> length (stacks_m t') = 3) \<and>
         (\<exists>t'. run_ops cs t = Inr t' \<and> roles_ok t' \<and> length (stacks_m t') = 3 \<and>
            {previous_stack_m t', next_stack_m t', temp_stack_m t'}
              = {StacksElem 0, StacksElem 1, StacksElem 2})"
proof
  from SetUserStack_roles [OF assms, of base sz]
  show "\<exists>t'. SetUserStack base sz t = Inr t' \<and>
            previous_stack_m t' = next_stack_m t \<and> next_stack_m t' = temp_stack_m t \<and>
            temp_stack_m t' = previous_stack_m t \<and> length (stacks_m t') = 3"
    by (auto simp: roles_ok_def)
next
  from run_ops_consistent [OF assms, of cs] obtain t' where
    t': "run_ops cs t = Inr t'" "roles_ok t'" by blast
  from t'(2) have "length (stacks_m t') = 3" by (simp add: roles_ok_def)
  with t' roles_ok_cover [OF t'(2)]
  show "\<exists>t'. run_ops cs t = Inr t' \<and> roles_ok t' \<and> length (stacks_m t') = 3 \<and>
            {previous_stack_m t', next_stack_m t', temp_stack_m t'}
              = {StacksElem 0, StacksElem 1, StacksElem 2}"
    by blast
qed

text \<open>
  C10, an instance: one call, and a sequence of three calls, on the example thread.
\<close>

theorem role_pointers_permuted_witness:
  "roles_ok ex_thread \<and>
   (\<exists>t'. SetUserStack 0x1000 0x1000 ex_thread = Inr t' \<and>
            previous_stack_m t' = StacksElem 1 \<and> next_stack_m t' = StacksElem 2 \<and>
            temp_stack_m t' = StacksElem 0 \<and> length (stacks_m t') = 3) \<and>
   (\<exists>t'. run_ops [CallSetUserStack 0x1000 0x1000, CallRestorePreviousUserStack,
              CallSetUserStack 0x3000 0x800] ex_thread = Inr t' \<and>
            roles_ok t' \<and> length (stacks_m t') = 3 \<and>
            {previous_stack_m t', next_stack_m t', temp_stack_m t'}
              = {StacksElem 0, StacksElem 1, StacksElem 2})"
proof -
  have p: "next_stack_m ex_thread = StacksElem 1" "temp_stack_m ex_thread = StacksElem 2"
    "previous_stack_m ex_thread = StacksElem 0"
    by (simp_all add: ex_thread_def)
  from role_pointers_permuted [OF ex_thread_roles_ok, of "0x1000" "0x1000"
      "[CallSetUserStack 0x1000 0x1000, CallRestorePreviousUserStack,
        CallSetUserStack 0x3000 0x800]"]
  show ?thesis unfolding p using ex_thread_roles_ok by blast
qed

end
